theory Spec2Isabelle
  imports Complex_Main "HOL-Library.Char_ord" "HOL-Library.List_Lexorder" "HOL-Library.Multiset"
begin

section \<open>The ledger: users and check-ins\<close>

text \<open>
  The daily summary route of \<^verbatim>\<open>backend/routes/reports.js\<close> reads two tables, \<^verbatim>\<open>users\<close> and
  \<^verbatim>\<open>checkins\<close>, through two SQL queries and post-processes the rows in JavaScript.

  A stored timestamp records a moment, \<open>instant\<close>, in seconds since 1970-01-01 00:00:00 UTC.
  The queries observe it only through the two SQLite functions \<^verbatim>\<open>DATE(t)\<close> (its calendar
  date, text \<^verbatim>\<open>YYYY-MM-DD\<close>) and \<^verbatim>\<open>julianday(t)\<close> (its fractional day number, a double), so a
  timestamp carries these two observations beside the moment. The value of a double is a
  real; the operations of the queries and of the handler on these values are exact here:
  the decimal rounding of \<^verbatim>\<open>Math.round(x * 10) / 10\<close> is modelled, the binary rounding of
  an arithmetic operation is not.
\<close>

record timestamp =
  instant :: int
  DATE :: string
  julianday :: real

record user =
  u_id :: nat
  u_name :: string
  u_email :: string
  u_role :: string
  u_manager_id :: "nat option"

record checkin =
  ch_id :: nat
  ch_employee_id :: nat
  ch_client_id :: nat
  checkin_time :: timestamp
  checkout_time :: "timestamp option"
  status :: string

record database =
  users :: "user list"
  checkins :: "checkin list"

section \<open>The employee breakdown query\<close>

text \<open>One row of the result of \<^verbatim>\<open>employeeQuery\<close>; the breakdown entries of the response have
  the same fields.\<close>

record employee_row =
  employee_id :: nat
  employee_name :: string
  employee_email :: string
  total_checkins :: nat
  clients_visited :: nat
  hours_worked :: real

text \<open>\<^verbatim>\<open>ON u.id = ch.employee_id AND DATE(ch.checkin_time) = ?\<close>\<close>

definition join_on :: "string \<Rightarrow> user \<Rightarrow> checkin \<Rightarrow> bool" where
  "join_on date u ch \<longleftrightarrow> u_id u = ch_employee_id ch \<and> DATE (checkin_time ch) = date"

text \<open>\<^verbatim>\<open>FROM users u LEFT JOIN checkins ch ON ...\<close>: every user row is paired with each check-in
  that satisfies the join condition, and with one all-NULL check-in when there is none.\<close>

definition joined_with :: "string \<Rightarrow> checkin list \<Rightarrow> user \<Rightarrow> (user \<times> checkin option) list" where
  "joined_with date chs u =
     (case filter (join_on date u) chs of
        [] \<Rightarrow> [(u, None)]
      | ms \<Rightarrow> map (\<lambda>ch. (u, Some ch)) ms)"

definition left_join :: "string \<Rightarrow> user list \<Rightarrow> checkin list \<Rightarrow> (user \<times> checkin option) list" where
  "left_join date us chs = concat (map (joined_with date chs) us)"

text \<open>\<^verbatim>\<open>WHERE u.manager_id = ? AND u.role = 'employee'\<close>, and \<^verbatim>\<open>AND u.id = ?\<close> when the request
  has an \<^verbatim>\<open>employee_id\<close>. A NULL \<^verbatim>\<open>manager_id\<close> equals nothing.\<close>

definition where_clause :: "nat \<Rightarrow> nat option \<Rightarrow> user \<Rightarrow> bool" where
  "where_clause manager filter_id u \<longleftrightarrow>
     u_manager_id u = Some manager \<and> u_role u = ''employee'' \<and>
     (case filter_id of None \<Rightarrow> True | Some e \<Rightarrow> u_id u = e)"

text \<open>\<^verbatim>\<open>GROUP BY u.id, u.name, u.email\<close>\<close>

definition group_key :: "user \<Rightarrow> nat \<times> string \<times> string" where
  "group_key u = (u_id u, u_name u, u_email u)"

text \<open>\<^verbatim>\<open>CASE WHEN ch.checkout_time IS NOT NULL
        THEN (julianday(ch.checkout_time) - julianday(ch.checkin_time)) * 24 ELSE 0 END\<close>;
  on the all-NULL check-in of an unmatched user the test is false.\<close>

fun hours_case :: "checkin option \<Rightarrow> real" where
  "hours_case None = 0"
| "hours_case (Some ch) =
     (case checkout_time ch of
        Some out \<Rightarrow> (julianday out - julianday (checkin_time ch)) * 24
      | None \<Rightarrow> 0)"

text \<open>The check-ins of a group of joined rows that are not NULL.\<close>

fun matched :: "(user \<times> checkin option) list \<Rightarrow> checkin list" where
  "matched [] = []"
| "matched ((u, None) # rows) = matched rows"
| "matched ((u, Some ch) # rows) = ch # matched rows"

text \<open>The select list over one group: \<^verbatim>\<open>COUNT(ch.id)\<close> counts the rows whose check-in is not
  NULL, \<^verbatim>\<open>COUNT(DISTINCT ch.client_id)\<close> their distinct clients, and the \<^verbatim>\<open>SUM\<close> runs over
  every row of the group (a group is never empty, so \<^verbatim>\<open>COALESCE\<close> has nothing to replace).\<close>

definition select_group :: "nat \<times> string \<times> string \<Rightarrow> (user \<times> checkin option) list \<Rightarrow> employee_row" where
  "select_group k rows =
     \<lparr> employee_id = fst k,
       employee_name = fst (snd k),
       employee_email = snd (snd k),
       total_checkins = length (matched rows),
       clients_visited = length (remdups (map ch_client_id (matched rows))),
       hours_worked = (\<Sum>row\<leftarrow>rows. hours_case (snd row)) \<rparr>"

text \<open>The joined rows that pass the \<^verbatim>\<open>WHERE\<close> clause.\<close>

definition employee_rows :: "database \<Rightarrow> string \<Rightarrow> nat \<Rightarrow> nat option \<Rightarrow> (user \<times> checkin option) list" where
  "employee_rows db date manager filter_id =
     filter (\<lambda>(u, ch). where_clause manager filter_id u)
       (left_join date (users db) (checkins db))"

text \<open>The whole query. \<^verbatim>\<open>ORDER BY u.name\<close> compares names bytewise (SQLite's default
  collation). The statement leaves the order of rows with equal names to the database;
  here such rows keep the order of their groups, which is the order in which \<^verbatim>\<open>users\<close>
  stores them.\<close>

definition employeeQuery :: "database \<Rightarrow> string \<Rightarrow> nat \<Rightarrow> nat option \<Rightarrow> employee_row list" where
  "employeeQuery db date manager filter_id =
     (let rows = employee_rows db date manager filter_id;
          keys = remdups (map (group_key \<circ> fst) rows)
      in sort_key employee_name
           (map (\<lambda>k. select_group k (filter (\<lambda>(u, ch). group_key u = k) rows)) keys))"

section \<open>The unique clients query\<close>

text \<open>\<^verbatim>\<open>FROM checkins ch INNER JOIN users u ON ch.employee_id = u.id\<close>\<close>

definition inner_join :: "checkin list \<Rightarrow> user list \<Rightarrow> (checkin \<times> user) list" where
  "inner_join chs us = [(ch, u). ch \<leftarrow> chs, u \<leftarrow> us, ch_employee_id ch = u_id u]"

text \<open>\<^verbatim>\<open>SELECT COUNT(DISTINCT ch.client_id) ... WHERE u.manager_id = ? AND DATE(ch.checkin_time) = ?\<close>:
  an aggregate without \<^verbatim>\<open>GROUP BY\<close> returns exactly one row.\<close>

definition uniqueClientsQuery :: "database \<Rightarrow> nat \<Rightarrow> string \<Rightarrow> nat list" where
  "uniqueClientsQuery db manager date =
     [length (remdups (map (ch_client_id \<circ> fst)
        (filter (\<lambda>(ch, u). u_manager_id u = Some manager \<and> DATE (checkin_time ch) = date)
           (inner_join (checkins db) (users db)))))]"

section \<open>The connection pool\<close>

text \<open>The two statements the route sends, with their bound parameters, in the order of
  the \<^verbatim>\<open>params\<close> arrays.\<close>

datatype query =
  EmployeeQuery string nat "nat option"
| UniqueClientsQuery nat string

text \<open>\<^verbatim>\<open>pool.execute\<close> either returns rows or throws; which statements throw is part of the
  pool's state.\<close>

record pool =
  store :: database
  throws :: "query \<Rightarrow> bool"

definition execute_employees :: "pool \<Rightarrow> string \<Rightarrow> nat \<Rightarrow> nat option \<Rightarrow> employee_row list option" where
  "execute_employees p date manager filter_id =
     (if throws p (EmployeeQuery date manager filter_id) then None
      else Some (employeeQuery (store p) date manager filter_id))"

definition execute_unique :: "pool \<Rightarrow> nat \<Rightarrow> string \<Rightarrow> nat list option" where
  "execute_unique p manager date =
     (if throws p (UniqueClientsQuery manager date) then None
      else Some (uniqueClientsQuery (store p) manager date))"

section \<open>The route\<close>

text \<open>\<^verbatim>\<open>/^\d{4}-\d{2}-\d{2}$/\<close>: a JavaScript regular expression without flags; \<^verbatim>\<open>\d\<close> is an
  ASCII digit and \<^verbatim>\<open>$\<close> is the end of the input.\<close>

datatype atom = Digit | Lit char

definition is_digit :: "char \<Rightarrow> bool" where
  "is_digit c \<longleftrightarrow> CHR ''0'' \<le> c \<and> c \<le> CHR ''9''"

fun atom_ok :: "atom \<Rightarrow> char \<Rightarrow> bool" where
  "atom_ok Digit c = is_digit c"
| "atom_ok (Lit l) c = (c = l)"

definition dateRegex :: "atom list" where
  "dateRegex = [Digit, Digit, Digit, Digit, Lit CHR ''-'', Digit, Digit, Lit CHR ''-'', Digit, Digit]"

definition test :: "atom list \<Rightarrow> string \<Rightarrow> bool" where
  "test re s \<longleftrightarrow> list_all2 atom_ok re s"

text \<open>\<^verbatim>\<open>Math.round(x)\<close> is the integer nearest to \<^verbatim>\<open>x\<close>, a tie going up.\<close>

definition Math_round :: "real \<Rightarrow> int" where
  "Math_round x = \<lfloor>x + 1 / 2\<rfloor>"

text \<open>The \<^verbatim>\<open>teamSummary\<close> object and the \<^verbatim>\<open>data\<close> object of the response. The team's
  \<^verbatim>\<open>total_checkins\<close> is the field \<open>team_total_checkins\<close>, apart from the field of the same
  name of an employee row; \<open>teamSummary\<close> is sent under the key \<^verbatim>\<open>team_summary\<close>.\<close>

record team_summary =
  total_employees :: nat
  employees_checked_in :: nat
  team_total_checkins :: nat
  total_hours_worked :: real
  unique_clients_visited :: nat

record summary_data =
  date :: string
  teamSummary :: team_summary
  employee_breakdown :: "employee_row list"

text \<open>A body is \<^verbatim>\<open>{success: false, message}\<close> or \<^verbatim>\<open>{success: true, data}\<close>; \<^verbatim>\<open>res.json\<close> without
  \<^verbatim>\<open>res.status\<close> answers with status 200.\<close>

datatype body = Failure string | Success summary_data

record response =
  status_code :: nat
  json :: body

text \<open>The fields of \<^verbatim>\<open>req.query\<close> the handler reads. A field is \<^verbatim>\<open>None\<close> when the parameter
  is absent; \<^verbatim>\<open>employee_id\<close> is the id its text denotes, and \<^verbatim>\<open>None\<close> also when the text is
  empty (the handler tests \<^verbatim>\<open>if (employee_id)\<close>).\<close>

record req_query =
  q_date :: "string option"
  q_employee_id :: "nat option"

text \<open>The payload of a verified token, \<^verbatim>\<open>req.user\<close>.\<close>

record token_user =
  tu_id :: nat
  tu_role :: string

definition teamSummary_of :: "employee_row list \<Rightarrow> team_summary" where
  "teamSummary_of employees =
     \<lparr> total_employees = length employees,
       employees_checked_in = length (filter (\<lambda>e. total_checkins e > 0) employees),
       team_total_checkins = fold (\<lambda>e sum. sum + total_checkins e) employees 0,
       total_hours_worked =
         real_of_int (Math_round (fold (\<lambda>e sum. sum + hours_worked e) employees 0 * 10)) / 10,
       unique_clients_visited = 0 \<rparr>"

definition employeeBreakdown :: "employee_row list \<Rightarrow> employee_row list" where
  "employeeBreakdown employees =
     map (\<lambda>emp. \<lparr> employee_id = employee_id emp,
                  employee_name = employee_name emp,
                  employee_email = employee_email emp,
                  total_checkins = total_checkins emp,
                  clients_visited = clients_visited emp,
                  hours_worked = real_of_int (Math_round (hours_worked emp * 10)) / 10 \<rparr>) employees"

text \<open>The handler of \<^verbatim>\<open>GET /daily-summary\<close>. It returns the response and the statements it
  sent to the pool, in order. \<^verbatim>\<open>!date\<close> holds for an absent and for an empty parameter.
  \<^verbatim>\<open>uniqueClients[0]?.unique_clients || 0\<close> is the count of the first row, and 0 without one.\<close>

definition handler :: "pool \<Rightarrow> token_user \<Rightarrow> req_query \<Rightarrow> response \<times> query list" where
  "handler p usr q =
     (case q_date q of
        None \<Rightarrow>
          (\<lparr>status_code = 400, json = Failure ''Date parameter is required (YYYY-MM-DD format)''\<rparr>, [])
      | Some d \<Rightarrow>
          if d = [] then
            (\<lparr>status_code = 400, json = Failure ''Date parameter is required (YYYY-MM-DD format)''\<rparr>, [])
          else if \<not> test dateRegex d then
            (\<lparr>status_code = 400, json = Failure ''Invalid date format. Use YYYY-MM-DD''\<rparr>, [])
          else
            (case execute_employees p d (tu_id usr) (q_employee_id q) of
               None \<Rightarrow>
                 (\<lparr>status_code = 500, json = Failure ''Failed to generate daily summary report''\<rparr>,
                  [EmployeeQuery d (tu_id usr) (q_employee_id q)])
             | Some employees \<Rightarrow>
                 (case execute_unique p (tu_id usr) d of
                    None \<Rightarrow>
                      (\<lparr>status_code = 500, json = Failure ''Failed to generate daily summary report''\<rparr>,
                       [EmployeeQuery d (tu_id usr) (q_employee_id q), UniqueClientsQuery (tu_id usr) d])
                  | Some uniqueClients \<Rightarrow>
                      (\<lparr>status_code = 200,
                        json = Success
                          \<lparr> date = d,
                            teamSummary = (teamSummary_of employees)
                              \<lparr>unique_clients_visited :=
                                 (case uniqueClients of [] \<Rightarrow> 0 | unique_clients # _ \<Rightarrow> unique_clients)\<rparr>,
                            employee_breakdown = employeeBreakdown employees \<rparr>\<rparr>,
                       [EmployeeQuery d (tu_id usr) (q_employee_id q), UniqueClientsQuery (tu_id usr) d]))))"

text \<open>The middleware in front of the handler, as \<^verbatim>\<open>QUESTIONS.md\<close> quotes it from
  \<^verbatim>\<open>backend/middleware/auth.js\<close>. The quoted part of \<^verbatim>\<open>authenticateToken\<close> is the callback
  of \<^verbatim>\<open>jwt.verify\<close>: an error is answered with 403, a payload becomes \<^verbatim>\<open>req.user\<close>. A request
  carries the outcome of that verification, \<^verbatim>\<open>None\<close> for the error.
  \<^verbatim>\<open>requireManager\<close> passes a payload whose role is \<^verbatim>\<open>manager\<close> and answers 403 otherwise.\<close>

record request =
  verified :: "token_user option"
  query_params :: req_query

definition authenticateToken :: "request \<Rightarrow> response + token_user" where
  "authenticateToken req =
     (case verified req of
        None \<Rightarrow> Inl \<lparr>status_code = 403, json = Failure ''Invalid or expired token''\<rparr>
      | Some usr \<Rightarrow> Inr usr)"

definition requireManager :: "token_user \<Rightarrow> response + token_user" where
  "requireManager usr =
     (if tu_role usr \<noteq> ''manager''
      then Inl \<lparr>status_code = 403, json = Failure ''Manager access required''\<rparr>
      else Inr usr)"

text \<open>\<^verbatim>\<open>router.get('/daily-summary', authenticateToken, requireManager, async (req, res) => ...)\<close>\<close>

definition daily_summary :: "pool \<Rightarrow> request \<Rightarrow> response \<times> query list" where
  "daily_summary p req =
     (case authenticateToken req of
        Inl res \<Rightarrow> (res, [])
      | Inr usr \<Rightarrow>
          (case requireManager usr of
             Inl res \<Rightarrow> (res, [])
           | Inr mgr \<Rightarrow> handler p mgr (query_params req)))"

section \<open>The report in the words of the specification\<close>


text \<open>The same difference taken between the two day numbers that \<^verbatim>\<open>julianday\<close> returns.\<close>

definition duration_hours :: "checkin \<Rightarrow> real" where
  "duration_hours ch =
     (case checkout_time ch of
        None \<Rightarrow> 0
      | Some out \<Rightarrow> (julianday out - julianday (checkin_time ch)) * 24)"




text \<open>The check-ins of one employee whose check-in time has the requested calendar date.\<close>

definition visits_on :: "string \<Rightarrow> checkin list \<Rightarrow> nat \<Rightarrow> checkin list" where
  "visits_on d chs i = filter (\<lambda>ch. ch_employee_id ch = i \<and> DATE (checkin_time ch) = d) chs"

text \<open>One employee's day: the number of check-ins, the distinct clients and the hours.\<close>

definition employee_day :: "string \<Rightarrow> checkin list \<Rightarrow> user \<Rightarrow> employee_row" where
  "employee_day d chs u =
     \<lparr> employee_id = u_id u,
       employee_name = u_name u,
       employee_email = u_email u,
       total_checkins = length (visits_on d chs (u_id u)),
       clients_visited = card (ch_client_id ` set (visits_on d chs (u_id u))),
       hours_worked = (\<Sum>ch\<leftarrow>visits_on d chs (u_id u). duration_hours ch) \<rparr>"

text \<open>The \<^verbatim>\<open>data\<close> object the handler builds when neither statement throws.\<close>

definition report :: "database \<Rightarrow> nat \<Rightarrow> string \<Rightarrow> nat option \<Rightarrow> summary_data" where
  "report db m d f =
     \<lparr> date = d,
       teamSummary = (teamSummary_of (employeeQuery db d m f))
         \<lparr>unique_clients_visited :=
            (case uniqueClientsQuery db m d of [] \<Rightarrow> 0 | unique_clients # _ \<Rightarrow> unique_clients)\<rparr>,
       employee_breakdown = employeeBreakdown (employeeQuery db d m f) \<rparr>"

section \<open>The check-in route's read-then-insert\<close>

text \<open>
  \<^verbatim>\<open>QUESTIONS.md\<close> quotes the check-in route of \<^verbatim>\<open>backend/routes/checkin.js\<close>: it awaits a
  \<^verbatim>\<open>SELECT\<close> of the caller's rows with \<^verbatim>\<open>status = "checked_in"\<close>, answers 400 when there is
  one, and otherwise awaits the \<^verbatim>\<open>INSERT\<close> of the new row. Each \<^verbatim>\<open>await\<close> is a point where the
  handlers of other requests run, so a call passes through the stages below, one statement
  per step.
\<close>

datatype stage = Arrived | Cleared | Rejected | Inserted

record checkin_call =
  caller :: nat
  target :: nat
  now :: timestamp
  stage :: stage

record world =
  ledger :: "checkin list"
  calls :: "checkin_call list"

text \<open>\<^verbatim>\<open>SELECT * FROM checkins WHERE employee_id = ? AND status = "checked_in"\<close>\<close>

definition activeCheckins :: "checkin list \<Rightarrow> nat \<Rightarrow> checkin list" where
  "activeCheckins l e = filter (\<lambda>ch. ch_employee_id ch = e \<and> status ch = ''checked_in'') l"

text \<open>\<^verbatim>\<open>INSERT INTO checkins (employee_id, ...) VALUES (?, ...)\<close>: the new row is an active
  check-in of the caller, with the next row id.\<close>

definition insert_checkin :: "checkin list \<Rightarrow> checkin_call \<Rightarrow> checkin list" where
  "insert_checkin l c =
     l @ [\<lparr>ch_id = Suc (length l), ch_employee_id = caller c, ch_client_id = target c,
           checkin_time = now c, checkout_time = None, status = ''checked_in''\<rparr>]"

text \<open>One statement of one call. \<^verbatim>\<open>Rejected\<close> is the 400 answer
  \<^verbatim>\<open>You already have an active check-in\<close>; \<^verbatim>\<open>Inserted\<close> is the successful check-in.\<close>

definition advance :: "checkin list \<Rightarrow> checkin_call \<Rightarrow> checkin list \<times> checkin_call" where
  "advance l c =
     (case stage c of
        Arrived \<Rightarrow>
          if length (activeCheckins l (caller c)) > 0
          then (l, c\<lparr>stage := Rejected\<rparr>)
          else (l, c\<lparr>stage := Cleared\<rparr>)
      | Cleared \<Rightarrow> (insert_checkin l c, c\<lparr>stage := Inserted\<rparr>)
      | Rejected \<Rightarrow> (l, c)
      | Inserted \<Rightarrow> (l, c))"

text \<open>The event loop resumes call \<open>i\<close>; a schedule is the order in which calls are resumed.\<close>

definition step :: "nat \<Rightarrow> world \<Rightarrow> world" where
  "step i w =
     (if i < length (calls w)
      then (case advance (ledger w) (calls w ! i) of
              (l, c) \<Rightarrow> \<lparr>ledger = l, calls = (calls w)[i := c]\<rparr>)
      else w)"

definition run :: "nat list \<Rightarrow> world \<Rightarrow> world" where
  "run schedule w = fold step schedule w"

section \<open>Concrete ledgers and requests\<close>

text \<open>A pool whose statements never throw.\<close>

definition never_throws :: "query \<Rightarrow> bool" where
  "never_throws q = False"

definition at_time :: "string \<Rightarrow> int \<Rightarrow> real \<Rightarrow> timestamp" where
  "at_time d i j = \<lparr>instant = i, DATE = d, julianday = j\<rparr>"

definition employee_of :: "nat \<Rightarrow> nat \<Rightarrow> string \<Rightarrow> user" where
  "employee_of manager i n =
     \<lparr>u_id = i, u_name = n, u_email = n @ ''@unolo.com'', u_role = ''employee'',
      u_manager_id = Some manager\<rparr>"

definition the_manager :: user where
  "the_manager =
     \<lparr>u_id = 1, u_name = ''Manager'', u_email = ''manager@unolo.com'', u_role = ''manager'',
      u_manager_id = None\<rparr>"

definition manager_token :: token_user where
  "manager_token = \<lparr>tu_id = 1, tu_role = ''manager''\<rparr>"

definition employee_token :: token_user where
  "employee_token = \<lparr>tu_id = 2, tu_role = ''employee''\<rparr>"

definition request_of :: "token_user \<Rightarrow> string option \<Rightarrow> nat option \<Rightarrow> request" where
  "request_of usr d e = \<lparr>verified = Some usr, query_params = \<lparr>q_date = d, q_employee_id = e\<rparr>\<rparr>"

text \<open>2024-01-15 09:00:00 UTC is second 1705309200 and day number 2460324.875, which is a
  double. The day numbers of later moments of that morning are not; the timestamps below
  carry the nearest double, the day number of 09:00:00 plus a multiple of \<open>1 / 2 ^ 31\<close>.\<close>

definition nine_o_clock :: timestamp where
  "nine_o_clock = at_time ''2024-01-15'' 1705309200 (2460324875 / 1000)"

text \<open>A check-in of 09:00:00 with checkout at 09:02:24: 144 seconds, 0.04 hours.\<close>

definition short_visit :: "nat \<Rightarrow> nat \<Rightarrow> nat \<Rightarrow> checkin" where
  "short_visit i e c =
     \<lparr>ch_id = i, ch_employee_id = e, ch_client_id = c,
      checkin_time = nine_o_clock,
      checkout_time =
        Some (at_time ''2024-01-15'' 1705309344 (2460324875 / 1000 + 3579139 / 2 ^ 31)),
      status = ''checked_out''\<rparr>"

text \<open>A check-in of 09:00:00 with checkout at 09:15:00: a quarter of an hour.\<close>

definition quarter_visit :: checkin where
  "quarter_visit =
     \<lparr>ch_id = 1, ch_employee_id = 2, ch_client_id = 10,
      checkin_time = nine_o_clock,
      checkout_time =
        Some (at_time ''2024-01-15'' 1705310100 (2460324875 / 1000 + 22369621 / 2 ^ 31)),
      status = ''checked_out''\<rparr>"

text \<open>A team of two, each employee with one visit to a client of their own.\<close>

definition two_visits :: pool where
  "two_visits =
     \<lparr>store = \<lparr>users = [the_manager, employee_of 1 3 ''Bob'', employee_of 1 2 ''Alice''],
               checkins = [short_visit 1 2 10, short_visit 2 3 11]\<rparr>,
      throws = never_throws\<rparr>"

text \<open>The same ledger with the rows of both tables stored in another order.\<close>

definition two_visits_reordered :: pool where
  "two_visits_reordered =
     \<lparr>store = \<lparr>users = [employee_of 1 2 ''Alice'', the_manager, employee_of 1 3 ''Bob''],
               checkins = [short_visit 2 3 11, short_visit 1 2 10]\<rparr>,
      throws = never_throws\<rparr>"

text \<open>A team of four, each employee with one visit of 0.04 hours.\<close>

definition four_visits :: pool where
  "four_visits =
     \<lparr>store = \<lparr>users = [the_manager, employee_of 1 2 ''Alice'', employee_of 1 3 ''Bob'',
                        employee_of 1 4 ''Carol'', employee_of 1 5 ''Dave''],
               checkins = [short_visit 1 2 10, short_visit 2 3 11, short_visit 3 4 12,
                           short_visit 4 5 13]\<rparr>,
      throws = never_throws\<rparr>"

text \<open>Employee 2 sends the check-in request twice (a double click) while the ledger holds
  no check-in.\<close>

definition double_click :: world where
  "double_click =
     \<lparr>ledger = [],
      calls = [\<lparr>caller = 2, target = 10, now = nine_o_clock, stage = Arrived\<rparr>,
               \<lparr>caller = 2, target = 10, now = nine_o_clock, stage = Arrived\<rparr>]\<rparr>"

text \<open>A team of two and a deputy: a direct report of the manager whose role is
  \<^verbatim>\<open>manager\<close>, with a visit of their own.\<close>

definition deputy :: user where
  "deputy =
     \<lparr>u_id = 4, u_name = ''Deputy'', u_email = ''deputy@unolo.com'', u_role = ''manager'',
      u_manager_id = Some 1\<rparr>"

definition with_deputy :: pool where
  "with_deputy =
     \<lparr>store = \<lparr>users = [the_manager, deputy, employee_of 1 3 ''Bob'', employee_of 1 2 ''Alice''],
               checkins = [short_visit 1 2 10, short_visit 2 3 11, short_visit 3 4 12]\<rparr>,
      throws = never_throws\<rparr>"

text \<open>Alice alone, with the visit of a quarter of an hour.\<close>

definition quarter_hour :: pool where
  "quarter_hour =
     \<lparr>store = \<lparr>users = [the_manager, employee_of 1 2 ''Alice''], checkins = [quarter_visit]\<rparr>,
      throws = never_throws\<rparr>"

text \<open>Two employees of the same name, and the same rows stored in another order.\<close>

definition sams :: pool where
  "sams =
     \<lparr>store = \<lparr>users = [the_manager, employee_of 1 2 ''Sam'', employee_of 1 3 ''Sam''],
               checkins = [short_visit 1 2 10]\<rparr>,
      throws = never_throws\<rparr>"

definition sams_reordered :: pool where
  "sams_reordered =
     \<lparr>store = \<lparr>users = [employee_of 1 3 ''Sam'', the_manager, employee_of 1 2 ''Sam''],
               checkins = [short_visit 1 2 10]\<rparr>,
      throws = never_throws\<rparr>"






definition filtered_report :: summary_data where
  "filtered_report =
     \<lparr>date = ''2024-01-15'',
      teamSummary =
        \<lparr>total_employees = 1, employees_checked_in = 1, team_total_checkins = 1,
         total_hours_worked = 0, unique_clients_visited = 2\<rparr>,
      employee_breakdown =
        [\<lparr>employee_id = 2, employee_name = ''Alice'', employee_email = ''Alice@unolo.com'',
          total_checkins = 1, clients_visited = 1, hours_worked = 0\<rparr>]\<rparr>"

definition four_report :: summary_data where
  "four_report =
     \<lparr>date = ''2024-01-15'',
      teamSummary =
        \<lparr>total_employees = 4, employees_checked_in = 4, team_total_checkins = 4,
         total_hours_worked = 1 / 5, unique_clients_visited = 4\<rparr>,
      employee_breakdown =
        [\<lparr>employee_id = 2, employee_name = ''Alice'', employee_email = ''Alice@unolo.com'',
          total_checkins = 1, clients_visited = 1, hours_worked = 0\<rparr>,
         \<lparr>employee_id = 3, employee_name = ''Bob'', employee_email = ''Bob@unolo.com'',
          total_checkins = 1, clients_visited = 1, hours_worked = 0\<rparr>,
         \<lparr>employee_id = 4, employee_name = ''Carol'', employee_email = ''Carol@unolo.com'',
          total_checkins = 1, clients_visited = 1, hours_worked = 0\<rparr>,
         \<lparr>employee_id = 5, employee_name = ''Dave'', employee_email = ''Dave@unolo.com'',
          total_checkins = 1, clients_visited = 1, hours_worked = 0\<rparr>]\<rparr>"

section \<open>Evaluating the route on concrete ledgers\<close>

lemmas ledger_defs =
  two_visits_def two_visits_reordered_def four_visits_def with_deputy_def deputy_def
  quarter_hour_def quarter_visit_def sams_def sams_reordered_def nine_o_clock_def
  the_manager_def employee_of_def short_visit_def at_time_def never_throws_def manager_token_def employee_token_def
  request_of_def

lemmas route_defs =
  daily_summary_def authenticateToken_def requireManager_def handler_def
  execute_employees_def execute_unique_def employeeQuery_def employee_rows_def left_join_def
  joined_with_def join_on_def where_clause_def group_key_def select_group_def
  uniqueClientsQuery_def inner_join_def test_def dateRegex_def is_digit_def
  teamSummary_of_def employeeBreakdown_def Math_round_def

lemma manager_request [simp]:
  "verified (request_of manager_token d e) = Some manager_token"
  "tu_role manager_token = ''manager''"
  "tu_id manager_token = 1"
  "q_date (query_params (request_of usr d e)) = d"
  "q_employee_id (query_params (request_of usr d e)) = e"
  by (simp_all add: request_of_def manager_token_def)

lemma valid_date [simp]: "test dateRegex ''2024-01-15''" "test dateRegex ''2024-01-16''"
  by (simp_all add: test_def dateRegex_def is_digit_def)

lemma pools_never_throw [simp]:
  "\<not> throws two_visits x" "\<not> throws two_visits_reordered x" "\<not> throws four_visits x"
  "\<not> throws with_deputy x" "\<not> throws quarter_hour x" "\<not> throws sams x"
  "\<not> throws sams_reordered x"
  by (simp_all add: ledger_defs)

lemma pools_distinct_ids [simp]:
  "distinct (map u_id (users (store two_visits)))"
  "distinct (map u_id (users (store four_visits)))"
  "distinct (map u_id (users (store with_deputy)))"
  "distinct (map u_id (users (store quarter_hour)))"
  by (simp_all add: ledger_defs)

section \<open>Requests that are rejected\<close>

lemma test_dateRegex_length: "test dateRegex d \<Longrightarrow> length d = 10"
  by (auto simp: test_def dateRegex_def dest: list_all2_lengthD)

lemma test_dateRegex_nonempty: "test dateRegex d \<Longrightarrow> d \<noteq> []"
  using test_dateRegex_length by fastforce

text \<open>
  C7. A request whose caller is not a manager (the token does not verify, or the role of
  its payload is not \<^verbatim>\<open>manager\<close>) is answered with status 403 and a failure body, which is
  \<^verbatim>\<open>Manager access required\<close> for a verified token; no statement is sent to the pool, and
  the answer is the same whatever the ledger holds.
\<close>

theorem non_manager_forbidden:
  assumes "case verified req of None \<Rightarrow> True | Some usr \<Rightarrow> tu_role usr \<noteq> ''manager''"
  shows "status_code (fst (daily_summary p req)) = 403 \<and>
         json (fst (daily_summary p req)) =
           Failure (if verified req = None then ''Invalid or expired token''
                    else ''Manager access required'') \<and>
         snd (daily_summary p req) = [] \<and>
         daily_summary p' req = daily_summary p req"
  using assms
  by (auto simp: daily_summary_def authenticateToken_def requireManager_def split: option.splits)

theorem non_manager_forbidden_witness:
  "fst (daily_summary two_visits (request_of employee_token (Some ''2024-01-15'') None)) =
     \<lparr>status_code = 403, json = Failure ''Manager access required''\<rparr> \<and>
   snd (daily_summary two_visits (request_of employee_token (Some ''2024-01-15'') None)) = []"
proof -
  have v: "verified (request_of employee_token (Some ''2024-01-15'') None) = Some employee_token"
    by (simp add: request_of_def)
  have h: "case verified (request_of employee_token (Some ''2024-01-15'') None) of
      None \<Rightarrow> True | Some usr \<Rightarrow> tu_role usr \<noteq> ''manager''"
    unfolding v by (simp add: employee_token_def)
  from non_manager_forbidden [OF h, of two_visits two_visits] show ?thesis
    by (cases "fst (daily_summary two_visits (request_of employee_token (Some ''2024-01-15'') None))")
       (simp add: v)
qed

text \<open>The pattern checks the form of the date, not the calendar: month 13 and day 45 pass,
  and such a request is answered like one for a day without check-ins.\<close>

lemma calendar_not_checked: "test dateRegex ''2024-13-45''"
  by (simp add: test_def dateRegex_def is_digit_def)

text \<open>An answer with a report carries the date of the request, which has the form
  \<^verbatim>\<open>YYYY-MM-DD\<close>: no other date is put in its place.\<close>

lemma answered_date:
  assumes "json (fst (daily_summary p req)) = Success data"
  shows "q_date (query_params req) = Some (date data) \<and> test dateRegex (date data)"
  using assms
  by (auto simp: daily_summary_def authenticateToken_def requireManager_def handler_def
           split: option.splits sum.splits if_splits)

text \<open>
  C6, as the code has it. A request whose \<^verbatim>\<open>date\<close> parameter is missing, empty or not of the
  form \<^verbatim>\<open>YYYY-MM-DD\<close> (four digits, dash, two digits, dash, two digits) is answered with a
  failure; no statement is sent to the pool, so no query runs with a date put in place of
  the missing one, and the answer does not depend on the ledger. When the caller is a
  manager, the status is 400 and the message is one of the two date messages; any other
  caller has been turned away by the middleware before the date is looked at.
\<close>

theorem invalid_date_rejected:
  assumes "case q_date (query_params req) of None \<Rightarrow> True | Some d \<Rightarrow> \<not> test dateRegex d"
  shows "(\<exists>msg. json (fst (daily_summary p req)) = Failure msg) \<and>
         snd (daily_summary p req) = [] \<and>
         daily_summary p' req = daily_summary p req \<and>
         (\<forall>usr. verified req = Some usr \<and> tu_role usr = ''manager'' \<longrightarrow>
            status_code (fst (daily_summary p req)) = 400 \<and>
            json (fst (daily_summary p req)) \<in>
              {Failure ''Date parameter is required (YYYY-MM-DD format)'',
               Failure ''Invalid date format. Use YYYY-MM-DD''})"
  using assms
  by (auto simp: daily_summary_def authenticateToken_def requireManager_def handler_def
           split: option.splits)

theorem invalid_date_rejected_witness:
  "status_code (fst (daily_summary two_visits (request_of manager_token (Some ''2024-1-15'') None))) = 400 \<and>
   json (fst (daily_summary two_visits (request_of manager_token (Some ''2024-1-15'') None))) \<in>
     {Failure ''Date parameter is required (YYYY-MM-DD format)'',
      Failure ''Invalid date format. Use YYYY-MM-DD''} \<and>
   snd (daily_summary two_visits (request_of manager_token (Some ''2024-1-15'') None)) = []"
proof -
  have h: "case q_date (query_params (request_of manager_token (Some ''2024-1-15'') None)) of
      None \<Rightarrow> True | Some d \<Rightarrow> \<not> test dateRegex d"
    by (simp add: test_def dateRegex_def)
  from invalid_date_rejected [OF h, of two_visits two_visits] manager_request(1,2)
  show ?thesis by blast
qed

text \<open>An employee who asks for the report without a date is told that manager access is
  required, not that the date is missing.\<close>

theorem missing_date_of_non_manager:
  "q_date (query_params (request_of employee_token None None)) = None \<and>
   fst (daily_summary two_visits (request_of employee_token None None)) =
     \<lparr>status_code = 403, json = Failure ''Manager access required''\<rparr>"
  by (simp add: request_of_def employee_token_def daily_summary_def authenticateToken_def
        requireManager_def)

section \<open>The employee query, employee by employee\<close>

lemma matched_map_Some: "matched (map (\<lambda>ch. (u, Some ch)) ms) = ms"
  by (induction ms) simp_all

lemma matched_append: "matched (xs @ ys) = matched xs @ matched ys"
  by (induction xs rule: matched.induct) simp_all

lemma matched_joined_with: "matched (joined_with d chs u) = filter (join_on d u) chs"
proof (cases "filter (join_on d u) chs")
  case Nil
  then show ?thesis by (simp add: joined_with_def)
next
  case (Cons c cs)
  then have "joined_with d chs u = map (\<lambda>ch. (u, Some ch)) (c # cs)"
    by (simp add: joined_with_def)
  then show ?thesis using Cons by (simp only: matched_map_Some)
qed

lemma hours_map_Some:
  "(\<Sum>row\<leftarrow>map (\<lambda>ch. (u, Some ch)) ms. hours_case (snd row)) = sum_list (map duration_hours ms)"
  by (induction ms) (simp_all add: duration_hours_def split: option.splits)

lemma hours_joined_with:
  "(\<Sum>row\<leftarrow>joined_with d chs u. hours_case (snd row)) =
   sum_list (map duration_hours (filter (join_on d u) chs))"
proof (cases "filter (join_on d u) chs")
  case Nil
  then show ?thesis by (simp add: joined_with_def)
next
  case (Cons c cs)
  then have "joined_with d chs u = map (\<lambda>ch. (u, Some ch)) (c # cs)"
    by (simp add: joined_with_def)
  then show ?thesis using Cons hours_map_Some [of u "c # cs"] by simp
qed

lemma fst_joined_with: "x \<in> set (joined_with d chs u) \<Longrightarrow> fst x = u"
  by (cases "filter (join_on d u) chs") (auto simp: joined_with_def)

lemma joined_with_nonempty: "joined_with d chs u \<noteq> []"
  by (cases "filter (join_on d u) chs") (auto simp: joined_with_def)

lemma filter_joined_with:
  "filter (\<lambda>(u', ch). P u') (joined_with d chs u) = (if P u then joined_with d chs u else [])"
proof -
  have "\<forall>x \<in> set (joined_with d chs u). (case x of (u', ch) \<Rightarrow> P u') = P u"
    using fst_joined_with [of _ d chs u] by (auto simp: case_prod_beta)
  then show ?thesis
    by (cases "P u") (simp_all add: filter_True filter_False)
qed

text \<open>The \<^verbatim>\<open>WHERE\<close> clause reads the user only, so it can be applied before the join.\<close>

lemma filter_left_join:
  "filter (\<lambda>(u, ch). P u) (left_join d us chs) = left_join d (filter P us) chs"
  by (induction us) (simp_all add: left_join_def filter_joined_with)

lemma left_join_single: "left_join d [u] chs = joined_with d chs u"
  by (simp add: left_join_def)

lemma matched_left_join:
  "matched (left_join d vs chs) = concat (map (\<lambda>u. filter (join_on d u) chs) vs)"
  by (induction vs) (simp_all add: left_join_def matched_append matched_joined_with)

lemma hours_left_join:
  "(\<Sum>row\<leftarrow>left_join d vs chs. hours_case (snd row)) =
   (\<Sum>u\<leftarrow>vs. sum_list (map duration_hours (filter (join_on d u) chs)))"
  by (induction vs) (simp_all add: left_join_def hours_joined_with)

lemma map_key_joined_with:
  "map (\<lambda>row. f (fst row)) (joined_with d chs u) = replicate (length (joined_with d chs u)) (f u)"
proof -
  have "\<forall>x \<in> set (joined_with d chs u). f (fst x) = f u"
    using fst_joined_with [of _ d chs u] by auto
  then show ?thesis
    by (metis map_replicate_const map_cong)
qed

lemma remdups_replicate_append: "0 < n \<Longrightarrow> remdups (replicate n x @ ys) = remdups (x # ys)"
proof (induction n)
  case 0
  then show ?case by simp
next
  case (Suc n)
  show ?case
  proof (cases "n = 0")
    case True
    then show ?thesis by simp
  next
    case False
    with Suc.IH have "remdups (replicate n x @ ys) = remdups (x # ys)" by simp
    moreover from False have "x \<in> set (replicate n x @ ys)" by simp
    ultimately show ?thesis by simp
  qed
qed

text \<open>A user contributes at least one joined row, so the groups of the joined rows are
  the groups of the users.\<close>

lemma remdups_keys_left_join:
  "remdups (map (\<lambda>row. f (fst row)) (left_join d us chs)) = remdups (map f us)"
proof (induction us)
  case Nil
  then show ?case by (simp add: left_join_def)
next
  case (Cons u us)
  let ?rest = "map (\<lambda>row. f (fst row)) (left_join d us chs)"
  have len: "0 < length (joined_with d chs u)"
    using joined_with_nonempty [of d chs u] by simp
  have "remdups (map (\<lambda>row. f (fst row)) (left_join d (u # us) chs)) =
        remdups (replicate (length (joined_with d chs u)) (f u) @ ?rest)"
    by (simp add: left_join_def map_key_joined_with)
  also have "\<dots> = remdups (f u # ?rest)"
    by (rule remdups_replicate_append [OF len])
  also have "\<dots> = remdups (map f (u # us))"
  proof -
    have "set ?rest = set (remdups ?rest)"
      by simp
    also have "\<dots> = set (map f us)" by (simp only: Cons.IH set_remdups)
    finally have mem: "f u \<in> set ?rest \<longleftrightarrow> f u \<in> set (map f us)"
      by simp
    show ?thesis
    proof (cases "f u \<in> set (map f us)")
      case True
      with mem show ?thesis using Cons.IH by (simp only: remdups.simps list.map if_True)
    next
      case False
      with mem show ?thesis using Cons.IH by (simp only: remdups.simps list.map if_False)
    qed
  qed
  finally show ?case .
qed

lemma employeeQuery_groups:
  "employeeQuery db d m f =
     sort_key employee_name
       (map (\<lambda>k. select_group k
                (left_join d (filter (\<lambda>u. group_key u = k) (filter (where_clause m f) (users db)))
                   (checkins db)))
          (remdups (map group_key (filter (where_clause m f) (users db)))))"
  by (simp add: employeeQuery_def employee_rows_def filter_left_join remdups_keys_left_join
        Let_def comp_def)

lemma filter_unique:
  "distinct xs \<Longrightarrow> x \<in> set xs \<Longrightarrow> (\<And>y. y \<in> set xs \<Longrightarrow> P y \<longleftrightarrow> y = x) \<Longrightarrow> filter P xs = [x]"
proof (induction xs)
  case Nil
  then show ?case by simp
next
  case (Cons a xs)
  show ?case
  proof (cases "a = x")
    case True
    with Cons.prems have "\<forall>y \<in> set xs. \<not> P y" by auto
    then have "filter P xs = []" by (simp add: filter_False)
    with True Cons.prems show ?thesis by simp
  next
    case False
    with Cons.prems have "\<not> P a" "x \<in> set xs" "distinct xs" by auto
    with Cons show ?thesis by simp
  qed
qed

lemma join_on_visits: "filter (join_on d u) chs = visits_on d chs (u_id u)"
  unfolding visits_on_def by (rule filter_cong) (auto simp: join_on_def)

lemma select_group_single:
  "select_group (group_key u) (joined_with d chs u) = employee_day d chs u"
  by (simp add: select_group_def employee_day_def group_key_def matched_joined_with
        hours_joined_with length_remdups_card_conv join_on_visits)

text \<open>When no two selected users agree on id, name and email, every group is one user,
  and the query agrees with the specification's employee-by-employee description.\<close>

lemma employeeQuery_by_group:
  assumes "distinct (map group_key (filter (where_clause m f) (users db)))"
  shows "employeeQuery db d m f =
     sort_key employee_name
       (map (employee_day d (checkins db)) (filter (where_clause m f) (users db)))"
proof -
  let ?us = "filter (where_clause m f) (users db)"
  from assms have dist: "distinct ?us" and inj_key: "inj_on group_key (set ?us)"
    by (simp_all add: distinct_map)
  have keys: "remdups (map group_key ?us) = map group_key ?us"
    using assms by simp
  have "map (\<lambda>k. select_group k (left_join d (filter (\<lambda>u. group_key u = k) ?us) (checkins db)))
          (map group_key ?us) = map (employee_day d (checkins db)) ?us"
  proof -
    have "select_group (group_key u)
            (left_join d (filter (\<lambda>u'. group_key u' = group_key u) ?us) (checkins db))
          = employee_day d (checkins db) u" if "u \<in> set ?us" for u
    proof -
      have "filter (\<lambda>u'. group_key u' = group_key u) ?us = [u]"
        using dist that inj_key by (intro filter_unique) (auto simp: inj_on_def)
      then show ?thesis by (simp add: select_group_single left_join_single)
    qed
    then show ?thesis by (simp only: map_map comp_def cong: map_cong)
  qed
  then show ?thesis by (simp only: employeeQuery_groups keys)
qed

text \<open>That is so when \<^verbatim>\<open>users.id\<close> identifies a user.\<close>

lemma employeeQuery_by_employee:
  assumes "distinct (map u_id (users db))"
  shows "employeeQuery db d m f =
     sort_key employee_name
       (map (employee_day d (checkins db)) (filter (where_clause m f) (users db)))"
proof -
  let ?us = "filter (where_clause m f) (users db)"
  have "distinct (map u_id ?us)"
    using assms by (rule distinct_map_filter)
  then have "distinct ?us" and "inj_on u_id (set ?us)"
    by (simp_all add: distinct_map)
  then have "distinct (map group_key ?us)"
    by (auto simp: distinct_map inj_on_def group_key_def)
  then show ?thesis by (rule employeeQuery_by_group)
qed


lemma mset_employeeQuery:
  assumes "distinct (map u_id (users db))"
  shows "mset (employeeQuery db d m f) =
         image_mset (employee_day d (checkins db)) (mset (filter (where_clause m f) (users db)))"
  by (simp add: employeeQuery_by_employee [OF assms])

lemma employee_day_simps [simp]:
  "employee_id (employee_day d chs u) = u_id u"
  "employee_name (employee_day d chs u) = u_name u"
  "employee_email (employee_day d chs u) = u_email u"
  "total_checkins (employee_day d chs u) = length (visits_on d chs (u_id u))"
  "clients_visited (employee_day d chs u) = card (ch_client_id ` set (visits_on d chs (u_id u)))"
  "hours_worked (employee_day d chs u) = (\<Sum>ch\<leftarrow>visits_on d chs (u_id u). duration_hours ch)"
  by (simp_all add: employee_day_def)



lemma set_employeeQuery_groups:
  "set (employeeQuery db d m f) =
     (\<lambda>k. select_group k
              (left_join d (filter (\<lambda>u. group_key u = k) (filter (where_clause m f) (users db)))
                 (checkins db))) ` group_key ` {u \<in> set (users db). where_clause m f u}"
  by (simp add: employeeQuery_groups)

lemma keys_employeeQuery:
  "map (\<lambda>e. (employee_id e, employee_name e, employee_email e)) (employeeQuery db d m f) =
   sort_key (\<lambda>k. fst (snd k)) (remdups (map group_key (filter (where_clause m f) (users db))))"
proof -
  have "map (\<lambda>e. (employee_id e, employee_name e, employee_email e))
          (sort_key employee_name (map (\<lambda>k. select_group k (g k)) ks))
        = sort_key (\<lambda>k. fst (snd k)) ks" for g and ks :: "(nat \<times> string \<times> string) list"
  proof (induction ks)
    case Nil
    then show ?case by simp
  next
    case (Cons k ks)
    have ins: "map (\<lambda>e. (employee_id e, employee_name e, employee_email e))
                 (insort_key employee_name (select_group k r) es)
               = insort_key (\<lambda>k. fst (snd k)) k
                   (map (\<lambda>e. (employee_id e, employee_name e, employee_email e)) es)"
      for r es
      by (induction es) (simp_all add: select_group_def)
    show ?case using Cons by (simp add: ins)
  qed
  then show ?thesis by (simp add: employeeQuery_groups)
qed

section \<open>Requests that are answered\<close>

lemma fold_plus_sum_list:
  fixes a :: "'a::monoid_add"
  shows "fold (\<lambda>e s. s + f e) xs a = a + sum_list (map f xs)"
  by (induction xs arbitrary: a) (simp_all add: add.assoc)

lemma Math_round_0 [simp]: "Math_round 0 = 0"
  by (simp add: Math_round_def)

lemma handler_ok:
  assumes "q_date q = Some d" and "test dateRegex d" and "\<And>x. \<not> throws p x"
  shows "handler p usr q =
    (\<lparr>status_code = 200, json = Success (report (store p) (tu_id usr) d (q_employee_id q))\<rparr>,
     [EmployeeQuery d (tu_id usr) (q_employee_id q), UniqueClientsQuery (tu_id usr) d])"
  using assms test_dateRegex_nonempty [of d]
  by (simp add: handler_def execute_employees_def execute_unique_def report_def)

text \<open>A manager's request with a well-formed date, on a pool that does not throw, is
  answered with status 200 and the report; both statements are sent.\<close>

lemma daily_summary_ok:
  assumes "verified req = Some usr" and "tu_role usr = ''manager''"
    and "q_date (query_params req) = Some d" and "test dateRegex d"
    and "\<And>x. \<not> throws p x"
  shows "daily_summary p req =
    (\<lparr>status_code = 200,
      json = Success (report (store p) (tu_id usr) d (q_employee_id (query_params req)))\<rparr>,
     [EmployeeQuery d (tu_id usr) (q_employee_id (query_params req)),
      UniqueClientsQuery (tu_id usr) d])"
  using assms(1,2) handler_ok [OF assms(3,4,5)]
  by (simp add: daily_summary_def authenticateToken_def requireManager_def)

lemma report_simps [simp]:
  "date (report db m d f) = d"
  "employee_breakdown (report db m d f) = employeeBreakdown (employeeQuery db d m f)"
  "total_employees (teamSummary (report db m d f)) = length (employeeQuery db d m f)"
  "employees_checked_in (teamSummary (report db m d f)) =
     length (filter (\<lambda>e. total_checkins e > 0) (employeeQuery db d m f))"
  "team_total_checkins (teamSummary (report db m d f)) =
     sum_list (map total_checkins (employeeQuery db d m f))"
  "total_hours_worked (teamSummary (report db m d f)) =
     real_of_int (Math_round (sum_list (map hours_worked (employeeQuery db d m f)) * 10)) / 10"
  by (simp_all add: report_def teamSummary_of_def fold_plus_sum_list)

lemma employeeBreakdown_simps [simp]:
  "map employee_id (employeeBreakdown es) = map employee_id es"
  "map employee_name (employeeBreakdown es) = map employee_name es"
  "map employee_email (employeeBreakdown es) = map employee_email es"
  "map total_checkins (employeeBreakdown es) = map total_checkins es"
  "map clients_visited (employeeBreakdown es) = map clients_visited es"
  "length (employeeBreakdown es) = length es"
  by (simp_all add: employeeBreakdown_def comp_def)

lemma set_inner_join:
  "set (inner_join chs us) = {(ch, u). ch \<in> set chs \<and> u \<in> set us \<and> ch_employee_id ch = u_id u}"
  by (auto simp: inner_join_def)

text \<open>The unique clients count reads the manager and the date only.\<close>

lemma report_unique_clients:
  "unique_clients_visited (teamSummary (report db m d f)) =
     card (ch_client_id ` {ch \<in> set (checkins db). DATE (checkin_time ch) = d \<and>
        (\<exists>u \<in> set (users db). u_id u = ch_employee_id ch \<and> u_manager_id u = Some m)})"
proof -
  have "(ch_client_id \<circ> fst) ` {x \<in> set (inner_join (checkins db) (users db)).
           case x of (ch, u) \<Rightarrow> u_manager_id u = Some m \<and> DATE (checkin_time ch) = d}
        = ch_client_id ` {ch \<in> set (checkins db). DATE (checkin_time ch) = d \<and>
        (\<exists>u \<in> set (users db). u_id u = ch_employee_id ch \<and> u_manager_id u = Some m)}"
    by (force simp: set_inner_join image_iff)
  then show ?thesis
    by (simp add: report_def uniqueClientsQuery_def length_remdups_card_conv)
qed

text \<open>
  C8. For a manager's request that is answered, the \<^verbatim>\<open>unique_clients_visited\<close> of the
  answer equals that of the answer to the same request without \<^verbatim>\<open>employee_id\<close>, and it is
  the number of distinct clients over all check-ins of the date by any user, of any role,
  whose \<^verbatim>\<open>manager_id\<close> is the caller.
\<close>

theorem unique_clients_ignore_filter:
  assumes "verified req = Some usr" and "tu_role usr = ''manager''"
    and "q_date (query_params req) = Some d" and "test dateRegex d"
    and "\<And>x. \<not> throws p x"
  shows "\<exists>filtered whole.
     fst (daily_summary p req) = \<lparr>status_code = 200, json = Success filtered\<rparr> \<and>
     fst (daily_summary p (req\<lparr>query_params := (query_params req)\<lparr>q_employee_id := None\<rparr>\<rparr>)) =
       \<lparr>status_code = 200, json = Success whole\<rparr> \<and>
     unique_clients_visited (teamSummary filtered) = unique_clients_visited (teamSummary whole) \<and>
     unique_clients_visited (teamSummary filtered) =
       card (ch_client_id ` {ch \<in> set (checkins (store p)). DATE (checkin_time ch) = d \<and>
         (\<exists>u \<in> set (users (store p)).
             u_id u = ch_employee_id ch \<and> u_manager_id u = Some (tu_id usr))})"
proof -
  let ?req' = "req\<lparr>query_params := (query_params req)\<lparr>q_employee_id := None\<rparr>\<rparr>"
  have "verified ?req' = Some usr" "q_date (query_params ?req') = Some d"
    using assms by simp_all
  from daily_summary_ok [OF this(1) assms(2) this(2) assms(4,5)]
    daily_summary_ok [OF assms]
  show ?thesis
    by (simp add: report_unique_clients)
qed

theorem unique_clients_ignore_filter_witness:
  "\<exists>filtered whole.
     fst (daily_summary two_visits (request_of manager_token (Some ''2024-01-15'') (Some 2))) =
       \<lparr>status_code = 200, json = Success filtered\<rparr> \<and>
     fst (daily_summary two_visits (request_of manager_token (Some ''2024-01-15'') None)) =
       \<lparr>status_code = 200, json = Success whole\<rparr> \<and>
     unique_clients_visited (teamSummary filtered) = unique_clients_visited (teamSummary whole)"
proof -
  have same: "(request_of manager_token (Some ''2024-01-15'') (Some 2))
      \<lparr>query_params := (query_params (request_of manager_token (Some ''2024-01-15'') (Some 2)))
          \<lparr>q_employee_id := None\<rparr>\<rparr> = request_of manager_token (Some ''2024-01-15'') None"
    by (simp add: request_of_def)
  from unique_clients_ignore_filter
    [of "request_of manager_token (Some ''2024-01-15'') (Some 2)" manager_token
        "''2024-01-15''" two_visits, OF manager_request(1,2) manager_request(4) valid_date(1)
        pools_never_throw(1)]
  show ?thesis unfolding same by blast
qed

text \<open>
  C9, as the code has it. For a manager's request that is answered, over a ledger in
  which \<^verbatim>\<open>users.id\<close> identifies a user: the breakdown has one entry per user whose
  \<^verbatim>\<open>manager_id\<close> is the caller, whose role is exactly \<^verbatim>\<open>employee\<close> and whom the \<^verbatim>\<open>employee_id\<close>
  parameter, when given, selects; \<^verbatim>\<open>total_employees\<close> is the number of these users; and no
  user of another role, a direct report of role \<^verbatim>\<open>manager\<close> included, has an entry.
\<close>

theorem breakdown_covers_employees:
  assumes "verified req = Some usr" and "tu_role usr = ''manager''"
    and "q_date (query_params req) = Some d" and "test dateRegex d"
    and "\<And>x. \<not> throws p x"
    and "distinct (map u_id (users (store p)))"
  shows "\<exists>data.
     fst (daily_summary p req) = \<lparr>status_code = 200, json = Success data\<rparr> \<and>
     distinct (map employee_id (employee_breakdown data)) \<and>
     set (map employee_id (employee_breakdown data)) =
       u_id ` {u \<in> set (users (store p)).
                 u_manager_id u = Some (tu_id usr) \<and> u_role u = ''employee'' \<and>
                 (case q_employee_id (query_params req) of None \<Rightarrow> True | Some e \<Rightarrow> u_id u = e)} \<and>
     total_employees (teamSummary data) =
       card {u \<in> set (users (store p)).
               u_manager_id u = Some (tu_id usr) \<and> u_role u = ''employee'' \<and>
               (case q_employee_id (query_params req) of None \<Rightarrow> True | Some e \<Rightarrow> u_id u = e)} \<and>
     (\<forall>u \<in> set (users (store p)). u_role u \<noteq> ''employee'' \<longrightarrow>
         u_id u \<notin> set (map employee_id (employee_breakdown data)))"
proof -
  let ?f = "q_employee_id (query_params req)"
  let ?us = "filter (where_clause (tu_id usr) ?f) (users (store p))"
  let ?data = "report (store p) (tu_id usr) d ?f"
  have wc: "{u \<in> set (users (store p)).
               u_manager_id u = Some (tu_id usr) \<and> u_role u = ''employee'' \<and>
               (case ?f of None \<Rightarrow> True | Some e \<Rightarrow> u_id u = e)} = set ?us"
    by (auto simp: where_clause_def)
  have inj: "inj_on u_id (set (users (store p)))" and dist: "distinct (users (store p))"
    using assms(6) by (simp_all add: distinct_map)
  have "image_mset employee_id (mset (employeeQuery (store p) d (tu_id usr) ?f)) =
        image_mset u_id (mset ?us)"
    unfolding mset_employeeQuery [OF assms(6)] by (simp add: multiset.map_comp comp_def)
  then have ids: "mset (map employee_id (employeeQuery (store p) d (tu_id usr) ?f)) =
                  mset (map u_id ?us)"
    by (simp only: mset_map)
  have dist_ids: "distinct (map u_id ?us)"
    using assms(6) by (rule distinct_map_filter)
  have 1: "distinct (map employee_id (employee_breakdown ?data))"
    using mset_eq_imp_distinct_iff [OF ids] dist_ids by simp
  have 2: "set (map employee_id (employee_breakdown ?data)) = u_id ` set ?us"
    using mset_eq_setD [OF ids] by simp
  have "length (employeeQuery (store p) d (tu_id usr) ?f) = length ?us"
    using mset_eq_length [OF ids] by simp
  moreover have "card (set ?us) = length ?us"
    using dist by (intro distinct_card) simp
  ultimately have 3: "total_employees (teamSummary ?data) = card (set ?us)"
    by simp
  have 4: "u_id u \<notin> set (map employee_id (employee_breakdown ?data))"
    if "u \<in> set (users (store p))" "u_role u \<noteq> ''employee''" for u
  proof
    assume "u_id u \<in> set (map employee_id (employee_breakdown ?data))"
    with 2 obtain v where v: "v \<in> set ?us" "u_id v = u_id u" by auto
    with inj that(1) have "v = u" by (auto simp: inj_on_def)
    with v that(2) show False by (simp add: where_clause_def)
  qed
  from daily_summary_ok [OF assms(1-5)] 1 2 3 4 show ?thesis
    unfolding wc by (intro exI [of _ ?data]) simp
qed


theorem breakdown_covers_employees_witness:
  "\<exists>data.
     fst (daily_summary with_deputy (request_of manager_token (Some ''2024-01-15'') None)) =
       \<lparr>status_code = 200, json = Success data\<rparr> \<and>
     distinct (map employee_id (employee_breakdown data)) \<and>
     4 \<notin> set (map employee_id (employee_breakdown data))"
proof -
  from breakdown_covers_employees
    [of "request_of manager_token (Some ''2024-01-15'') None" manager_token
        "''2024-01-15''" with_deputy, OF manager_request(1,2) manager_request(4) valid_date(1)
        pools_never_throw(4) pools_distinct_ids(3)]
  obtain data where data:
    "fst (daily_summary with_deputy (request_of manager_token (Some ''2024-01-15'') None)) =
       \<lparr>status_code = 200, json = Success data\<rparr>"
    "distinct (map employee_id (employee_breakdown data))"
    "\<forall>u \<in> set (users (store with_deputy)). u_role u \<noteq> ''employee'' \<longrightarrow>
         u_id u \<notin> set (map employee_id (employee_breakdown data))"
    by blast
  have "deputy \<in> set (users (store with_deputy))" "u_role deputy \<noteq> ''employee''" "u_id deputy = 4"
    by (simp_all add: with_deputy_def deputy_def)
  with data(3) have "4 \<notin> set (map employee_id (employee_breakdown data))"
    by fastforce
  with data(1,2) show ?thesis by blast
qed

text \<open>The request for Alice alone: Bob reports to the caller with role \<^verbatim>\<open>employee\<close> and has
  no entry, and \<^verbatim>\<open>total_employees\<close> is 1.\<close>

theorem filtered_breakdown_leaves_out_employee:
  "fst (daily_summary two_visits (request_of manager_token (Some ''2024-01-15'') (Some 2))) =
     \<lparr>status_code = 200, json = Success filtered_report\<rparr> \<and>
   employee_of 1 3 ''Bob'' \<in> set (users (store two_visits)) \<and>
   u_manager_id (employee_of 1 3 ''Bob'') = Some (tu_id manager_token) \<and>
   u_role (employee_of 1 3 ''Bob'') = ''employee'' \<and>
   u_id (employee_of 1 3 ''Bob'') \<notin> set (map employee_id (employee_breakdown filtered_report)) \<and>
   total_employees (teamSummary filtered_report) = 1"
  by (simp add: ledger_defs route_defs filtered_report_def)

section \<open>A day without check-ins\<close>

lemma sum_list_all_zero:
  fixes g :: "'a \<Rightarrow> real"
  shows "(\<And>x. x \<in> set xs \<Longrightarrow> g x = 0) \<Longrightarrow> sum_list (map g xs) = 0"
  by (induction xs) simp_all

text \<open>
  C4. For a manager's request without \<^verbatim>\<open>employee_id\<close> that is answered, when no user whose
  \<^verbatim>\<open>manager_id\<close> is the caller and whose role is \<^verbatim>\<open>employee\<close> has a check-in on the
  requested date: \<^verbatim>\<open>total_checkins\<close> and \<^verbatim>\<open>total_hours_worked\<close> of the team summary are 0,
  every breakdown entry has \<^verbatim>\<open>total_checkins\<close>, \<^verbatim>\<open>clients_visited\<close> and \<^verbatim>\<open>hours_worked\<close> 0,
  every such user has an entry with their id, name and email, and no two entries agree
  on all three.
\<close>

theorem empty_day_all_zero:
  assumes "verified req = Some usr" and "tu_role usr = ''manager''"
    and "q_date (query_params req) = Some d" and "test dateRegex d"
    and "q_employee_id (query_params req) = None"
    and "\<And>x. \<not> throws p x"
    and none: "\<And>u ch. u \<in> set (users (store p)) \<Longrightarrow> ch \<in> set (checkins (store p)) \<Longrightarrow>
           u_manager_id u = Some (tu_id usr) \<Longrightarrow> u_role u = ''employee'' \<Longrightarrow>
           ch_employee_id ch = u_id u \<Longrightarrow> DATE (checkin_time ch) \<noteq> d"
  shows "\<exists>data.
     fst (daily_summary p req) = \<lparr>status_code = 200, json = Success data\<rparr> \<and>
     team_total_checkins (teamSummary data) = 0 \<and>
     total_hours_worked (teamSummary data) = 0 \<and>
     (\<forall>e \<in> set (employee_breakdown data).
         total_checkins e = 0 \<and> clients_visited e = 0 \<and> hours_worked e = 0) \<and>
     (\<forall>u \<in> set (users (store p)). u_manager_id u = Some (tu_id usr) \<and> u_role u = ''employee'' \<longrightarrow>
         (\<exists>e \<in> set (employee_breakdown data).
             employee_id e = u_id u \<and> employee_name e = u_name u \<and> employee_email e = u_email u)) \<and>
     distinct (map (\<lambda>e. (employee_id e, employee_name e, employee_email e)) (employee_breakdown data))"
proof -
  let ?m = "tu_id usr"
  let ?db = "store p"
  let ?us = "filter (where_clause ?m None) (users ?db)"
  let ?es = "employeeQuery ?db d ?m None"
  let ?data = "report ?db ?m d None"
  have no_join: "filter (join_on d u) (checkins ?db) = []" if "u \<in> set ?us" for u
    using that none [of u] by (auto simp: filter_empty_conv join_on_def where_clause_def)
  have zero: "total_checkins e = 0 \<and> clients_visited e = 0 \<and> hours_worked e = 0"
    if "e \<in> set ?es" for e
  proof -
    from that obtain k where e: "e = select_group k
        (left_join d (filter (\<lambda>u. group_key u = k) ?us) (checkins ?db))"
      unfolding set_employeeQuery_groups by blast
    have "\<forall>u \<in> set (filter (\<lambda>u. group_key u = k) ?us). filter (join_on d u) (checkins ?db) = []"
      using no_join by simp
    then have "matched (left_join d (filter (\<lambda>u. group_key u = k) ?us) (checkins ?db)) = []"
      and "(\<Sum>row\<leftarrow>left_join d (filter (\<lambda>u. group_key u = k) ?us) (checkins ?db).
              hours_case (snd row)) = 0"
      unfolding matched_left_join hours_left_join
      by (simp, intro sum_list_all_zero, simp)
    then show ?thesis by (simp add: e select_group_def)
  qed
  have 1: "team_total_checkins (teamSummary ?data) = 0"
    using zero by (simp add: sum_list_eq_0_iff)
  have "sum_list (map hours_worked ?es) = 0"
    using zero by (simp add: sum_list_all_zero)
  then have 2: "total_hours_worked (teamSummary ?data) = 0"
    by simp
  have 3: "\<forall>e \<in> set (employee_breakdown ?data).
         total_checkins e = 0 \<and> clients_visited e = 0 \<and> hours_worked e = 0"
    using zero by (auto simp: employeeBreakdown_def)
  have keys: "map (\<lambda>e. (employee_id e, employee_name e, employee_email e)) (employee_breakdown ?data)
     = sort_key (\<lambda>k. fst (snd k)) (remdups (map group_key ?us))"
    using keys_employeeQuery [of ?db d ?m None] by (simp add: employeeBreakdown_def comp_def)
  have 4: "\<exists>e \<in> set (employee_breakdown ?data).
             employee_id e = u_id u \<and> employee_name e = u_name u \<and> employee_email e = u_email u"
    if "u \<in> set (users ?db)" "u_manager_id u = Some ?m" "u_role u = ''employee''" for u
  proof -
    from that have "group_key u \<in> set (sort_key (\<lambda>k. fst (snd k)) (remdups (map group_key ?us)))"
      by (simp add: where_clause_def)
    then have "group_key u \<in> set (map (\<lambda>e. (employee_id e, employee_name e, employee_email e))
                 (employee_breakdown ?data))"
      by (simp only: keys)
    then show ?thesis by (auto simp: group_key_def)
  qed
  have 5: "distinct (map (\<lambda>e. (employee_id e, employee_name e, employee_email e))
             (employee_breakdown ?data))"
    by (simp only: keys distinct_sort distinct_remdups)
  from daily_summary_ok [OF assms(1-4,6)] assms(5) 1 2 3 4 5 show ?thesis
    by (intro exI [of _ ?data]) simp
qed

theorem empty_day_all_zero_witness:
  "\<exists>data.
     fst (daily_summary two_visits (request_of manager_token (Some ''2024-01-16'') None)) =
       \<lparr>status_code = 200, json = Success data\<rparr> \<and>
     team_total_checkins (teamSummary data) = 0 \<and>
     total_hours_worked (teamSummary data) = 0 \<and>
     length (employee_breakdown data) = 2 \<and>
     list_all (\<lambda>e. total_checkins e = 0 \<and> clients_visited e = 0 \<and> hours_worked e = 0)
       (employee_breakdown data)"
proof -
  let ?req = "request_of manager_token (Some ''2024-01-16'') None"
  have none: "DATE (checkin_time ch) \<noteq> ''2024-01-16''"
    if "ch \<in> set (checkins (store two_visits))" for ch
    using that by (auto simp: two_visits_def short_visit_def nine_o_clock_def at_time_def)
  from empty_day_all_zero
    [of ?req manager_token "''2024-01-16''" two_visits,
     OF manager_request(1,2) manager_request(4) valid_date(2) manager_request(5)
        pools_never_throw(1) none]
  obtain data where data:
    "fst (daily_summary two_visits ?req) = \<lparr>status_code = 200, json = Success data\<rparr>"
    "team_total_checkins (teamSummary data) = 0"
    "total_hours_worked (teamSummary data) = 0"
    "\<forall>e \<in> set (employee_breakdown data).
         total_checkins e = 0 \<and> clients_visited e = 0 \<and> hours_worked e = 0"
    by blast
  have "length (employee_breakdown (report (store two_visits) 1 ''2024-01-16'' None)) = 2"
    by (simp add: ledger_defs route_defs)
  moreover have "data = report (store two_visits) 1 ''2024-01-16'' None"
    using data(1) daily_summary_ok [of ?req manager_token "''2024-01-16''" two_visits]
    by simp
  ultimately have "length (employee_breakdown data) = 2" by simp
  with data show ?thesis by (auto simp: list_all_iff)
qed

section \<open>Rounding the hours\<close>

lemma Math_round_bounds:
  "x - 1 / 2 < real_of_int (Math_round x)" "real_of_int (Math_round x) \<le> x + 1 / 2"
  unfolding Math_round_def by linarith+

lemma rounded_sum_upper:
  fixes h :: "'a \<Rightarrow> real"
  shows "(\<Sum>e\<leftarrow>es. real_of_int (Math_round (h e * 10))) \<le> (\<Sum>e\<leftarrow>es. h e) * 10 + length es / 2"
proof (induction es)
  case Nil
  then show ?case by simp
next
  case (Cons a es)
  from Math_round_bounds(2) [of "h a * 10"] Cons show ?case
    by (simp add: add_divide_distrib distrib_right; linarith)
qed

lemma rounded_sum_lower:
  fixes h :: "'a \<Rightarrow> real"
  shows "(\<Sum>e\<leftarrow>es. h e) * 10 - length es / 2 \<le> (\<Sum>e\<leftarrow>es. real_of_int (Math_round (h e * 10)))"
proof (induction es)
  case Nil
  then show ?case by simp
next
  case (Cons a es)
  from Math_round_bounds(1) [of "h a * 10"] Cons show ?case
    by (simp add: add_divide_distrib distrib_right; linarith)
qed

lemma rounded_sum_lower_strict:
  fixes h :: "'a \<Rightarrow> real"
  assumes "es \<noteq> []"
  shows "(\<Sum>e\<leftarrow>es. h e) * 10 - length es / 2 < (\<Sum>e\<leftarrow>es. real_of_int (Math_round (h e * 10)))"
proof (cases es)
  case Nil
  with assms show ?thesis by simp
next
  case (Cons a as)
  from Math_round_bounds(1) [of "h a * 10"] rounded_sum_lower [of h as] show ?thesis
    unfolding Cons by (simp add: add_divide_distrib distrib_right; linarith)
qed

text \<open>The team total is rounded once, every entry on its own: each rounding moves a
  value by at most 0.05, and both sides are multiples of 0.1.\<close>

lemma rounding_gap:
  fixes es :: "employee_row list"
  defines "team \<equiv> real_of_int (Math_round ((\<Sum>e\<leftarrow>es. hours_worked e) * 10)) / 10"
    and "parts \<equiv> (\<Sum>e\<leftarrow>employeeBreakdown es. hours_worked e)"
  shows "\<bar>team - parts\<bar> \<le> (length es + 1) / 20"
    and "length es \<le> 3 \<Longrightarrow> \<bar>team - parts\<bar> \<le> 1 / 10"
proof -
  let ?S = "(\<Sum>e\<leftarrow>es. hours_worked e) * 10"
  let ?A = "Math_round ?S"
  let ?B = "\<Sum>e\<leftarrow>es. Math_round (hours_worked e * 10)"
  have B: "real_of_int ?B = (\<Sum>e\<leftarrow>es. real_of_int (Math_round (hours_worked e * 10)))"
    by (induction es) simp_all
  have parts: "parts = real_of_int ?B / 10"
    unfolding parts_def B by (induction es) (simp_all add: employeeBreakdown_def add_divide_distrib)
  have diff: "team - parts = real_of_int (?A - ?B) / 10"
    by (simp add: team_def parts diff_divide_distrib)
  from Math_round_bounds [of ?S] rounded_sum_upper [of hours_worked es]
    rounded_sum_lower [of hours_worked es]
  have "\<bar>real_of_int (?A - ?B)\<bar> \<le> (length es + 1) / 2"
    unfolding B [symmetric] by (simp add: add_divide_distrib; linarith)
  then show "\<bar>team - parts\<bar> \<le> (length es + 1) / 20"
    unfolding diff by simp
  show "\<bar>team - parts\<bar> \<le> 1 / 10" if "length es \<le> 3"
  proof (cases "es = []")
    case True
    then show ?thesis by (simp add: team_def parts_def employeeBreakdown_def)
  next
    case False
    from Math_round_bounds [of ?S] rounded_sum_upper [of hours_worked es]
      rounded_sum_lower_strict [OF False, of hours_worked] that
    have "\<bar>real_of_int (?A - ?B)\<bar> < 2"
      unfolding B [symmetric] by (simp; linarith)
    then have "\<bar>?A - ?B\<bar> < 2" by linarith
    then have "\<bar>?A - ?B\<bar> \<le> 1" by simp
    then have "\<bar>real_of_int (?A - ?B)\<bar> \<le> 1" by linarith
    then show ?thesis unfolding diff by simp
  qed
qed

text \<open>
  C3, as the code has it. For a manager's request that is answered, \<^verbatim>\<open>total_hours_worked\<close>
  of the team summary differs from the sum of \<^verbatim>\<open>hours_worked\<close> over the breakdown entries
  by at most 0.05 times the number of entries plus one; with at most three entries the
  difference is at most 0.1.
\<close>

theorem total_hours_close_to_breakdown:
  assumes "verified req = Some usr" and "tu_role usr = ''manager''"
    and "q_date (query_params req) = Some d" and "test dateRegex d"
    and "\<And>x. \<not> throws p x"
  shows "\<exists>data.
     fst (daily_summary p req) = \<lparr>status_code = 200, json = Success data\<rparr> \<and>
     \<bar>total_hours_worked (teamSummary data) - (\<Sum>e\<leftarrow>employee_breakdown data. hours_worked e)\<bar>
        \<le> (length (employee_breakdown data) + 1) / 20 \<and>
     (length (employee_breakdown data) \<le> 3 \<longrightarrow>
        \<bar>total_hours_worked (teamSummary data) - (\<Sum>e\<leftarrow>employee_breakdown data. hours_worked e)\<bar>
          \<le> 1 / 10)"
  using daily_summary_ok [OF assms]
    rounding_gap [of "employeeQuery (store p) d (tu_id usr) (q_employee_id (query_params req))"]
  by simp

lemma four_visits_answer:
  "fst (daily_summary four_visits (request_of manager_token (Some ''2024-01-15'') None)) =
     \<lparr>status_code = 200, json = Success four_report\<rparr>"
  by (simp add: ledger_defs route_defs four_report_def)

theorem total_hours_close_to_breakdown_witness:
  "\<bar>total_hours_worked (teamSummary four_report) -
      (\<Sum>e\<leftarrow>employee_breakdown four_report. hours_worked e)\<bar>
     \<le> (length (employee_breakdown four_report) + 1) / 20 \<and>
   (\<exists>data.
      fst (daily_summary two_visits (request_of manager_token (Some ''2024-01-15'') None)) =
        \<lparr>status_code = 200, json = Success data\<rparr> \<and>
      length (employee_breakdown data) = 2 \<and>
      \<bar>total_hours_worked (teamSummary data) - (\<Sum>e\<leftarrow>employee_breakdown data. hours_worked e)\<bar>
        \<le> 1 / 10)"
proof -
  let ?req = "request_of manager_token (Some ''2024-01-15'') None"
  from total_hours_close_to_breakdown
    [of ?req manager_token "''2024-01-15''" four_visits,
     OF manager_request(1,2) manager_request(4) valid_date(1) pools_never_throw(3)]
  have four: "\<bar>total_hours_worked (teamSummary four_report) -
      (\<Sum>e\<leftarrow>employee_breakdown four_report. hours_worked e)\<bar>
     \<le> (length (employee_breakdown four_report) + 1) / 20"
    unfolding four_visits_answer by auto
  from total_hours_close_to_breakdown
    [of ?req manager_token "''2024-01-15''" two_visits,
     OF manager_request(1,2) manager_request(4) valid_date(1) pools_never_throw(1)]
  obtain data where data:
    "fst (daily_summary two_visits ?req) = \<lparr>status_code = 200, json = Success data\<rparr>"
    "length (employee_breakdown data) \<le> 3 \<longrightarrow>
        \<bar>total_hours_worked (teamSummary data) - (\<Sum>e\<leftarrow>employee_breakdown data. hours_worked e)\<bar>
          \<le> 1 / 10"
    by blast
  have "length (employee_breakdown (report (store two_visits) 1 ''2024-01-15'' None)) = 2"
    by (simp add: ledger_defs route_defs)
  moreover have "data = report (store two_visits) 1 ''2024-01-15'' None"
    using data(1) daily_summary_ok [of ?req manager_token "''2024-01-15''" two_visits]
    by simp
  ultimately have "length (employee_breakdown data) = 2" by simp
  with data four show ?thesis by auto
qed

text \<open>Four employees with one visit of 0.04 hours each: every entry rounds to 0.0, the
  team's 0.16 hours round to 0.2.\<close>

theorem total_hours_beyond_tolerance:
  "fst (daily_summary four_visits (request_of manager_token (Some ''2024-01-15'') None)) =
     \<lparr>status_code = 200, json = Success four_report\<rparr> \<and>
   \<not> \<bar>total_hours_worked (teamSummary four_report) -
        sum_list (map hours_worked (employee_breakdown four_report))\<bar> \<le> 1 / 10"
  by (simp add: ledger_defs route_defs four_report_def)

section \<open>Unique clients and total check-ins\<close>

lemma sum_list_sort_key:
  fixes g :: "'a \<Rightarrow> 'b::comm_monoid_add"
  shows "sum_list (map g (sort_key f xs)) = sum_list (map g xs)"
proof -
  have "sum_list (map g (sort_key f xs)) = sum_mset (mset (map g (sort_key f xs)))"
    by (simp only: sum_mset_sum_list)
  also have "\<dots> = sum_mset (mset (map g xs))"
    by simp
  also have "\<dots> = sum_list (map g xs)"
    by (simp only: sum_mset_sum_list)
  finally show ?thesis .
qed

lemma team_total_checkins_by_employee:
  assumes "distinct (map u_id (users db))"
  shows "sum_list (map total_checkins (employeeQuery db d m f)) =
         (\<Sum>u\<leftarrow>filter (where_clause m f) (users db). length (visits_on d (checkins db) (u_id u)))"
  by (simp add: employeeQuery_by_employee [OF assms] sum_list_sort_key comp_def)

text \<open>
  C2, as the code has it. For a manager's request without \<^verbatim>\<open>employee_id\<close> that is answered,
  over a ledger in which \<^verbatim>\<open>users.id\<close> identifies a user and every user whose \<^verbatim>\<open>manager_id\<close>
  is the caller and who has a check-in on the requested date has role \<^verbatim>\<open>employee\<close>:
  \<^verbatim>\<open>unique_clients_visited\<close> is at most \<^verbatim>\<open>total_checkins\<close> of the team summary.
\<close>

theorem unique_clients_le_checkins:
  assumes "verified req = Some usr" and "tu_role usr = ''manager''"
    and "q_date (query_params req) = Some d" and "test dateRegex d"
    and "q_employee_id (query_params req) = None"
    and "\<And>x. \<not> throws p x"
    and "distinct (map u_id (users (store p)))"
    and roles: "\<And>u ch. u \<in> set (users (store p)) \<Longrightarrow> ch \<in> set (checkins (store p)) \<Longrightarrow>
           u_manager_id u = Some (tu_id usr) \<Longrightarrow> ch_employee_id ch = u_id u \<Longrightarrow>
           DATE (checkin_time ch) = d \<Longrightarrow> u_role u = ''employee''"
  shows "\<exists>data.
     fst (daily_summary p req) = \<lparr>status_code = 200, json = Success data\<rparr> \<and>
     unique_clients_visited (teamSummary data) \<le> team_total_checkins (teamSummary data)"
proof -
  let ?m = "tu_id usr"
  let ?db = "store p"
  let ?chs = "checkins ?db"
  let ?us = "filter (where_clause ?m None) (users ?db)"
  let ?data = "report ?db ?m d None"
  let ?S = "{ch \<in> set ?chs. DATE (checkin_time ch) = d \<and>
        (\<exists>u \<in> set (users ?db). u_id u = ch_employee_id ch \<and> u_manager_id u = Some ?m)}"
  have dist: "distinct ?us"
    using assms(7) by (simp add: distinct_map)
  have sub: "?S \<subseteq> (\<Union>u \<in> set ?us. set (visits_on d ?chs (u_id u)))"
  proof
    fix ch assume "ch \<in> ?S"
    then obtain u where u: "ch \<in> set ?chs" "DATE (checkin_time ch) = d" "u \<in> set (users ?db)"
      "u_id u = ch_employee_id ch" "u_manager_id u = Some ?m"
      by blast
    with roles [of u ch] have "u \<in> set ?us"
      by (simp add: where_clause_def)
    moreover from u have "ch \<in> set (visits_on d ?chs (u_id u))"
      by (simp add: visits_on_def)
    ultimately show "ch \<in> (\<Union>u \<in> set ?us. set (visits_on d ?chs (u_id u)))"
      by blast
  qed
  have "unique_clients_visited (teamSummary ?data) = card (ch_client_id ` ?S)"
    by (rule report_unique_clients)
  also have "\<dots> \<le> card ?S"
    by (rule card_image_le) simp
  also have "\<dots> \<le> card (\<Union>u \<in> set ?us. set (visits_on d ?chs (u_id u)))"
    by (rule card_mono [OF _ sub]) simp
  also have "\<dots> \<le> (\<Sum>u \<in> set ?us. card (set (visits_on d ?chs (u_id u))))"
    by (rule card_UN_le) simp
  also have "\<dots> \<le> (\<Sum>u \<in> set ?us. length (visits_on d ?chs (u_id u)))"
    by (rule sum_mono) (rule card_length)
  also have "\<dots> = (\<Sum>u\<leftarrow>?us. length (visits_on d ?chs (u_id u)))"
    using dist by (simp add: sum_list_distinct_conv_sum_set)
  also have "\<dots> = team_total_checkins (teamSummary ?data)"
    by (simp add: team_total_checkins_by_employee [OF assms(7)])
  finally have "unique_clients_visited (teamSummary ?data) \<le> team_total_checkins (teamSummary ?data)" .
  with daily_summary_ok [OF assms(1-4,6)] assms(5) show ?thesis
    by (intro exI [of _ ?data]) simp
qed

theorem unique_clients_le_checkins_witness:
  "\<exists>data.
     fst (daily_summary two_visits (request_of manager_token (Some ''2024-01-15'') None)) =
       \<lparr>status_code = 200, json = Success data\<rparr> \<and>
     unique_clients_visited (teamSummary data) \<le> team_total_checkins (teamSummary data)"
proof -
  have roles: "u_role u = ''employee''"
    if "u \<in> set (users (store two_visits))" "u_manager_id u = Some (tu_id manager_token)" for u
    using that by (auto simp: two_visits_def the_manager_def employee_of_def)
  show ?thesis
    by (rule unique_clients_le_checkins
        [of "request_of manager_token (Some ''2024-01-15'') None" manager_token
            "''2024-01-15''" two_visits, OF manager_request(1,2) manager_request(4) valid_date(1)
            manager_request(5) pools_never_throw(1) pools_distinct_ids(1) roles])
qed

text \<open>The request for Alice alone: her one check-in is counted, and so are the two
  clients the whole team visited.\<close>

theorem filtered_unique_clients_exceed_checkins:
  "fst (daily_summary two_visits (request_of manager_token (Some ''2024-01-15'') (Some 2))) =
     \<lparr>status_code = 200, json = Success filtered_report\<rparr> \<and>
   \<not> unique_clients_visited (teamSummary filtered_report)
       \<le> team_total_checkins (teamSummary filtered_report)"
  by (simp add: ledger_defs route_defs filtered_report_def)

text \<open>The unique clients query has no condition on the role: the client the deputy
  visited is counted, the deputy's check-in is not.\<close>

lemma deputy_visit_counts_as_client:
  "fst (daily_summary with_deputy (request_of manager_token (Some ''2024-01-15'') None)) =
     \<lparr>status_code = 200, json = Success (report (store with_deputy) 1 ''2024-01-15'' None)\<rparr> \<and>
   unique_clients_visited (teamSummary (report (store with_deputy) 1 ''2024-01-15'' None)) = 3 \<and>
   team_total_checkins (teamSummary (report (store with_deputy) 1 ''2024-01-15'' None)) = 2"
  using daily_summary_ok
    [of "request_of manager_token (Some ''2024-01-15'') None" manager_token "''2024-01-15''" with_deputy]
  by (simp add: report_def ledger_defs route_defs)

section \<open>Two check-ins at once\<close>

lemmas checkin_defs =
  run_def step_def advance_def activeCheckins_def insert_checkin_def double_click_def

text \<open>When the second call is resumed only after the first has finished, it finds the
  active check-in and is rejected.\<close>

lemma one_call_after_the_other:
  "map stage (calls (run [0, 0, 1, 1] double_click)) = [Inserted, Rejected] \<and>
   length (activeCheckins (ledger (run [0, 0, 1, 1] double_click)) 2) = 1"
  by (simp add: checkin_defs)

text \<open>
  C1. At most one check-in with \<^verbatim>\<open>status = checked_in\<close> per employee, and of concurrent
  check-in calls of one employee exactly one succeeds: the quoted route does not keep
  this. With both \<^verbatim>\<open>SELECT\<close>s resumed before either \<^verbatim>\<open>INSERT\<close>, both calls of a double click
  see no active check-in, both insert, both succeed, and the employee has two active
  check-ins.
\<close>

theorem double_click_two_active:
  "map stage (calls (run [0, 1, 0, 1] double_click)) = [Inserted, Inserted] \<and>
   length (activeCheckins (ledger (run [0, 1, 0, 1] double_click)) 2) = 2"
  by (simp add: checkin_defs)

section \<open>The order of the breakdown\<close>










section \<open>Hours worked\<close>








end
